theory Spec2Isabelle
  imports Complex_Main
begin

section \<open>Go values and run-time panics\<close>

text \<open>
  The table of \<^verbatim>\<open>dict/hash_dict.go\<close> and the set of \<^verbatim>\<open>hash_set.go\<close>, as functions on
  an explicit table state. A method of the source either returns, aborts with a run-time
  panic (a slice index out of range, an integer division by zero, a slice length that
  \<^verbatim>\<open>make\<close> refuses, the \<^verbatim>\<open>OutOfBounds\<close> panic of \<^verbatim>\<open>Get\<close>) or never returns (a chain of \<^verbatim>\<open>next\<close> links that runs in a
  circle): the three constructors of \<open>outcome\<close>.

  Go's \<^verbatim>\<open>int\<close> is the type \<open>int\<close> here. Slice lengths, slot indices and the counters
  are bounded by the lengths of allocated slices, and hashes and keys only meet
  \<^verbatim>\<open>%\<close> and \<^verbatim>\<open>==\<close>, so no arithmetic on them leaves the 64-bit range. The one loop
  that computes on a number the caller chooses before anything is allocated,
  \<^verbatim>\<open>bucketsSizeFor\<close>, has its 64-bit wrap-around written out.
\<close>

datatype error = IndexOutOfRange | DivideByZero | OutOfBounds | LenOutOfRange

datatype 'a outcome = Returns 'a | Panics error | Diverges

definition then_do :: "'a outcome \<Rightarrow> ('a \<Rightarrow> 'b outcome) \<Rightarrow> 'b outcome" where
  "then_do m f = (case m of Returns x \<Rightarrow> f x | Panics e \<Rightarrow> Panics e | Diverges \<Rightarrow> Diverges)"

text \<open>A 64-bit two's complement result of an arithmetic operation.\<close>

definition wrap64 :: "int \<Rightarrow> int" where
  "wrap64 x = (x + 2 ^ 63) mod 2 ^ 64 - 2 ^ 63"

text \<open>Go's \<^verbatim>\<open>/\<close> and \<^verbatim>\<open>%\<close> on integers truncate towards zero: the remainder has the
  sign of the dividend.\<close>

definition quot_go :: "int \<Rightarrow> int \<Rightarrow> int" where
  "quot_go a b = sgn a * sgn b * (\<bar>a\<bar> div \<bar>b\<bar>)"

definition rem_go :: "int \<Rightarrow> int \<Rightarrow> int" where
  "rem_go a b = sgn a * (\<bar>a\<bar> mod \<bar>b\<bar>)"

text \<open>Reading \<^verbatim>\<open>xs[i]\<close> and writing \<^verbatim>\<open>xs[i] = x\<close>: both panic outside \<open>0 \<le> i < len(xs)\<close>.\<close>

definition load :: "'a list \<Rightarrow> int \<Rightarrow> 'a outcome" where
  "load xs i = (if 0 \<le> i \<and> i < int (length xs) then Returns (xs ! nat i)
                else Panics IndexOutOfRange)"

definition store :: "'a list \<Rightarrow> int \<Rightarrow> 'a \<Rightarrow> 'a list outcome" where
  "store xs i x = (if 0 \<le> i \<and> i < int (length xs) then Returns (xs[nat i := x])
                   else Panics IndexOutOfRange)"

text \<open>The builtin \<^verbatim>\<open>copy(dst, src)\<close>: the first \<open>min (len dst) (len src)\<close> elements of
  \<open>dst\<close> are overwritten.\<close>

definition copy :: "'a list \<Rightarrow> 'a list \<Rightarrow> 'a list" where
  "copy dst src = take (length dst) src @ drop (length src) dst"

text \<open>
  The builtin \<^verbatim>\<open>make([]T, n)\<close>, the runtime's \<^verbatim>\<open>makeslice\<close>: a slice of \<open>n\<close> zero values. The runtime refuses it with the
  panic \<^verbatim>\<open>makeslice: len out of range\<close> when \<open>n\<close> is negative or the \<open>n\<close> elements take more
  than \<^verbatim>\<open>maxAlloc\<close> bytes, which is \<open>2 ^ 48\<close> on the 64-bit platforms. An \<^verbatim>\<open>int\<close> takes 8
  bytes. An \<^verbatim>\<open>entry[K, V]\<close> takes 24 bytes for its \<^verbatim>\<open>hash\<close>, \<^verbatim>\<open>next\<close> and \<^verbatim>\<open>alive\<close>
  fields, and more for its key and value: \<open>entrySize\<close> is the size of the smallest entry,
  so the runtime refuses a slice of entries wherever the model does, and for large keys
  or values somewhat earlier. Memory that runs out below these bounds ends the process;
  this the model does not describe.
\<close>

definition maxAlloc :: int where
  "maxAlloc = 2 ^ 48"

definition intSize :: int where
  "intSize = 8"

definition entrySize :: int where
  "entrySize = 24"

definition make_slice :: "int \<Rightarrow> int \<Rightarrow> 'a \<Rightarrow> 'a list outcome" where
  "make_slice elemSize n zero =
     (if n < 0 \<or> maxAlloc < elemSize * n then Panics LenOutOfRange
      else Returns (replicate (nat n) zero))"

text \<open>The zero value of a type is the class constant \<open>default\<close>: \<open>0\<close> for \<^verbatim>\<open>int\<close>,
  \<open>()\<close> for the empty struct \<^verbatim>\<open>Void\<close>.\<close>

instantiation int :: default
begin
definition default_int :: int where "default_int = 0"
instance ..
end

section \<open>The table: \<^verbatim>\<open>dict/hash_dict.go\<close>\<close>

record ('k, 'v) entry =
  hash :: int
  key :: 'k
  "value" :: 'v
  "next" :: int
  alive :: bool

text \<open>The struct \<^verbatim>\<open>hashMap\<close> behind the pointer \<^verbatim>\<open>HashDict.inner\<close>. In the source
  \<^verbatim>\<open>freeCount\<close> is the head of the free list and \<^verbatim>\<open>freeSize\<close> the number of free
  slots. \<^verbatim>\<open>loadFactor\<close> is a \<^verbatim>\<open>float64\<close> that is only ever \<open>1\<close>; the conversion
  \<^verbatim>\<open>float64(n)\<close> it is compared with is exact below \<open>2 ^ 53\<close> and monotone, so the
  comparison is the one on the reals.\<close>

record ('k, 'v) hashMap =
  buckets :: "int list"
  entries :: "('k, 'v) entry list"
  appendCount :: int
  freeCount :: int
  freeSize :: int
  hasher :: "'k \<Rightarrow> int"
  loadFactor :: real

text \<open>\<^verbatim>\<open>entry[K, V]{}\<close>, the element of a fresh \<^verbatim>\<open>make([]entry[K, V], n)\<close>.\<close>

definition zero_entry :: "('k::default, 'v::default) entry" where
  "zero_entry = \<lparr>hash = 0, key = default, value = default, next = 0, alive = False\<rparr>"

definition defaultElementsSize :: int where
  "defaultElementsSize = 10"

text \<open>\<^verbatim>\<open>NumberHasher\<close> at the key type \<^verbatim>\<open>int\<close>: the conversion \<^verbatim>\<open>int(t)\<close> is the identity.\<close>

definition NumberHasher :: "int \<Rightarrow> int" where
  "NumberHasher t = t"

text \<open>The loop of \<^verbatim>\<open>bucketsSizeFor\<close> (lines 86-88). The doubling wraps around at 64
  bits, after which the loop never ends: \<open>None\<close> is "does not return".\<close>

partial_function (option) bucketsSizeFor_loop :: "int \<Rightarrow> int \<Rightarrow> int option" where
  "bucketsSizeFor_loop sz bucketsSize =
     (if bucketsSize < sz then bucketsSizeFor_loop sz (wrap64 (bucketsSize * 2))
      else Some bucketsSize)"

declare bucketsSizeFor_loop.simps [code]

definition bucketsSizeFor :: "int \<Rightarrow> int outcome" where
  "bucketsSizeFor sz =
     (case bucketsSizeFor_loop sz 16 of None \<Rightarrow> Diverges | Some n \<Rightarrow> Returns n)"

text \<open>\<^verbatim>\<open>MakeHashDict\<close> (lines 41-57): the bucket array is made and filled with \<open>-1\<close>, then
  the entry store is made.\<close>

definition MakeHashDict ::
  "('k \<Rightarrow> int) \<Rightarrow> int \<Rightarrow> ('k::default, 'v::default) hashMap outcome" where
  "MakeHashDict hasher' capacity =
     then_do (bucketsSizeFor capacity) (\<lambda>n.
       then_do (make_slice intSize n (0::int)) (\<lambda>zeros.
         let buckets' = map (\<lambda>_. - 1) zeros;
             sz = (if capacity < defaultElementsSize then defaultElementsSize else capacity)
         in then_do (make_slice entrySize sz zero_entry) (\<lambda>entries'.
              Returns \<lparr>buckets = buckets', entries = entries',
                        appendCount = 0, freeCount = 0, freeSize = 0,
                        hasher = hasher', loadFactor = 1\<rparr>)))"

text \<open>\<^verbatim>\<open>index\<close> (line 311): \<^verbatim>\<open>hash % len(buckets)\<close>, a division by zero on an empty
  bucket array.\<close>

definition index :: "('k, 'v) hashMap \<Rightarrow> int \<Rightarrow> int outcome" where
  "index a h = (if length (buckets a) = 0 then Panics DivideByZero
                else Returns (rem_go h (int (length (buckets a)))))"

definition Size :: "('k, 'v) hashMap \<Rightarrow> int" where
  "Size a = appendCount a - freeSize a + 1"

definition IsEmpty :: "('k, 'v) hashMap \<Rightarrow> bool" where
  "IsEmpty a = (Size a = 0)"

text \<open>
  The scan that \<^verbatim>\<open>Put\<close> (lines 124-137), \<^verbatim>\<open>GetAndPut\<close> (171-185), \<^verbatim>\<open>TryGet\<close>
  (212-217) and \<^verbatim>\<open>Remove\<close> (225-247) each write out:
  \<^verbatim>\<open>for i := buckets[index]; i >= 0; i = entries[i].next\<close>, left at the first slot whose
  hash and key match. Nothing is written before the match, so the scan is a function of
  the entries: \<open>Some (Inr (Some i))\<close> is a match at slot \<open>i\<close>, \<open>Some (Inr None)\<close> the end of
  the chain, \<open>Some (Inl e)\<close> a panic and \<open>None\<close> a scan that never ends.
\<close>

partial_function (option) chain_loop ::
  "('k, 'v) entry list \<Rightarrow> int \<Rightarrow> 'k \<Rightarrow> int \<Rightarrow> (error + int option) option" where
  "chain_loop es h k i =
     (if i \<ge> 0 then
        (if i < int (length es) then
           (let item = es ! nat i in
            if hash item = h \<and> key item = k then Some (Inr (Some i))
            else chain_loop es h k (next item))
         else Some (Inl IndexOutOfRange))
      else Some (Inr None))"

declare chain_loop.simps [code]

definition chain_find :: "('k, 'v) hashMap \<Rightarrow> int \<Rightarrow> 'k \<Rightarrow> int \<Rightarrow> int option outcome" where
  "chain_find a h k idx =
     then_do (load (buckets a) idx) (\<lambda>b.
       case chain_loop (entries a) h k b of
         None \<Rightarrow> Diverges
       | Some (Inl e) \<Rightarrow> Panics e
       | Some (Inr r) \<Rightarrow> Returns r)"

text \<open>The rehash of \<^verbatim>\<open>grow\<close> (lines 293-300): every live slot, in ascending index order,
  becomes the head of its bucket in the new bucket array.\<close>

function rehash_loop ::
  "nat \<Rightarrow> ('k, 'v) entry list \<Rightarrow> int list \<Rightarrow> int
     \<Rightarrow> (('k, 'v) entry list \<times> int list) outcome" where
  "rehash_loop i es newBuckets newBucketsSize =
     (if i < length es then
        (let v = es ! i in
         if alive v then
           (if newBucketsSize = 0 then Panics DivideByZero
            else
              (let bucket = rem_go (hash v) newBucketsSize in
               then_do (load newBuckets bucket) (\<lambda>head.
                 rehash_loop (i + 1) (es[i := v\<lparr>next := head\<rparr>])
                   (newBuckets[nat bucket := int i]) newBucketsSize)))
         else rehash_loop (i + 1) es newBuckets newBucketsSize)
      else Returns (es, newBuckets))"
  by pat_completeness auto
termination
  by (relation "measure (\<lambda>(i, es, nb, n). length es - i)") auto

text \<open>\<^verbatim>\<open>grow\<close> (lines 284-308). \<^verbatim>\<open>entriesSize << 1\<close> is \<open>push_bit 1 entriesSize\<close>.\<close>

definition grow :: "('k::default, 'v::default) hashMap \<Rightarrow> int \<Rightarrow> ('k, 'v) hashMap outcome" where
  "grow a newSize =
     (let entriesSize = int (length (entries a));
          bucketsSize = int (length (buckets a))
      in if bucketsSize = 0 then Panics DivideByZero
         else
           then_do
             (if real_of_int (quot_go newSize bucketsSize) > loadFactor a then
                (let newBucketsSize = bucketsSize * 2 in
                 then_do (make_slice intSize newBucketsSize (0::int)) (\<lambda>zeros.
                   let newBuckets = map (\<lambda>_. - 1) zeros in
                   then_do (rehash_loop 0 (entries a) newBuckets newBucketsSize)
                     (\<lambda>(es, nb). Returns (a\<lparr>entries := es, buckets := nb\<rparr>))))
              else Returns a)
             (\<lambda>a1.
                if newSize > entriesSize then
                  then_do (make_slice entrySize (entriesSize + push_bit 1 entriesSize) zero_entry)
                    (\<lambda>newEntries. Returns (a1\<lparr>entries := copy newEntries (entries a1)\<rparr>))
                else Returns a1))"

text \<open>The slot for a new key, written out twice in the source (lines 138-147 of
  \<^verbatim>\<open>Put\<close>, 186-195 of \<^verbatim>\<open>GetAndPut\<close>): the head of the free list when \<^verbatim>\<open>freeSize > 0\<close>,
  else the next slot of the append region, after \<^verbatim>\<open>grow(Size() + 1)\<close>.\<close>

definition take_slot ::
  "('k::default, 'v::default) hashMap \<Rightarrow> (int \<times> ('k, 'v) hashMap) outcome" where
  "take_slot a =
     (if freeSize a > 0 then
        then_do (load (entries a) (freeCount a)) (\<lambda>e.
          Returns (freeCount a, a\<lparr>freeCount := next e, freeSize := freeSize a - 1\<rparr>))
      else
        then_do (grow a (Size a + 1)) (\<lambda>a1.
          Returns (appendCount a1, a1\<lparr>appendCount := appendCount a1 + 1\<rparr>)))"

text \<open>The new entry made the head of bucket \<open>idx\<close> (lines 148-156 and 197-205). \<open>idx\<close> is
  the index that was computed before \<^verbatim>\<open>grow\<close> ran.\<close>

definition link_slot ::
  "('k, 'v) hashMap \<Rightarrow> int \<Rightarrow> int \<Rightarrow> int \<Rightarrow> 'k \<Rightarrow> 'v \<Rightarrow> ('k, 'v) hashMap outcome" where
  "link_slot a idx bucket h k v =
     then_do (load (buckets a) idx) (\<lambda>head.
       let newItem = \<lparr>hash = h, key = k, value = v, next = head, alive = True\<rparr>
       in then_do (store (entries a) bucket newItem) (\<lambda>es.
            then_do (store (buckets a) idx bucket) (\<lambda>bs.
              Returns (a\<lparr>entries := es, buckets := bs\<rparr>))))"

text \<open>\<^verbatim>\<open>Put\<close> (lines 121-158): the previous value and the new state. A slot index that
  the scan returns is within the entries.\<close>

definition Put ::
  "('k::default, 'v::default) hashMap \<Rightarrow> 'k \<Rightarrow> 'v
     \<Rightarrow> ('v option \<times> ('k, 'v) hashMap) outcome" where
  "Put a k v =
     (let h = hasher a k in
      then_do (index a h) (\<lambda>idx.
        then_do (chain_find a h k idx) (\<lambda>r.
          case r of
            Some i \<Rightarrow>
              (let item = entries a ! nat i;
                   newItem = \<lparr>hash = hash item, key = key item, value = v,
                              next = next item, alive = alive item\<rparr>
               in Returns (Some (value item), a\<lparr>entries := (entries a)[nat i := newItem]\<rparr>))
          | None \<Rightarrow>
              then_do (take_slot a) (\<lambda>(bucket, a1).
                then_do (link_slot a1 idx bucket h k v) (\<lambda>a2.
                  Returns (None, a2))))))"

text \<open>\<^verbatim>\<open>PutAll\<close> (lines 160-166), the collection being the list of its items.\<close>

fun PutAll ::
  "('k::default, 'v::default) hashMap \<Rightarrow> ('k \<times> 'v) list \<Rightarrow> ('k, 'v) hashMap outcome" where
  "PutAll a [] = Returns a"
| "PutAll a ((k, v) # elements) = then_do (Put a k v) (\<lambda>(_, a1). PutAll a1 elements)"

text \<open>\<^verbatim>\<open>GetAndPut\<close> (lines 168-207).\<close>

definition GetAndPut ::
  "('k::default, 'v::default) hashMap \<Rightarrow> 'k \<Rightarrow> ('v option \<Rightarrow> 'v)
     \<Rightarrow> (('v \<times> 'v option) \<times> ('k, 'v) hashMap) outcome" where
  "GetAndPut a k set' =
     (let h = hasher a k in
      then_do (index a h) (\<lambda>idx.
        then_do (chain_find a h k idx) (\<lambda>r.
          case r of
            Some i \<Rightarrow>
              (let item = entries a ! nat i;
                   newValue = set' (Some (value item));
                   newItem = \<lparr>hash = hash item, key = key item, value = newValue,
                              next = next item, alive = alive item\<rparr>
               in Returns ((newValue, Some (value item)),
                           a\<lparr>entries := (entries a)[nat i := newItem]\<rparr>))
          | None \<Rightarrow>
              then_do (take_slot a) (\<lambda>(bucket, a1).
                let newValue = set' None in
                then_do (link_slot a1 idx bucket h k newValue) (\<lambda>a2.
                  Returns ((newValue, None), a2))))))"

text \<open>\<^verbatim>\<open>TryGet\<close> (lines 209-219), \<^verbatim>\<open>Get\<close> (114-119) and \<^verbatim>\<open>Contains\<close> (251-253).\<close>

definition TryGet :: "('k, 'v) hashMap \<Rightarrow> 'k \<Rightarrow> 'v option outcome" where
  "TryGet a k =
     (let h = hasher a k in
      then_do (index a h) (\<lambda>idx.
        then_do (chain_find a h k idx) (\<lambda>r.
          case r of
            Some i \<Rightarrow> Returns (Some (value (entries a ! nat i)))
          | None \<Rightarrow> Returns None)))"

definition Get :: "('k, 'v) hashMap \<Rightarrow> 'k \<Rightarrow> 'v outcome" where
  "Get a k =
     then_do (TryGet a k) (\<lambda>r. case r of Some v \<Rightarrow> Returns v | None \<Rightarrow> Panics OutOfBounds)"

definition Contains :: "('k, 'v) hashMap \<Rightarrow> 'k \<Rightarrow> bool outcome" where
  "Contains a k = then_do (TryGet a k) (\<lambda>r. Returns (r \<noteq> None))"

text \<open>\<^verbatim>\<open>Remove\<close> (lines 221-249). The variable \<^verbatim>\<open>last\<close> is declared as \<open>-1\<close> before the
  loop (line 224) and no statement of the loop assigns it. The value returned is that of
  the \<^verbatim>\<open>item\<close> of line 226, the matching entry as it was read before the slot is
  cleared; the \<^verbatim>\<open>item\<close> of line 231 is local to its branch.\<close>

definition Remove ::
  "('k::default, 'v::default) hashMap \<Rightarrow> 'k \<Rightarrow> ('v option \<times> ('k, 'v) hashMap) outcome" where
  "Remove a k =
     (let h = hasher a k in
      then_do (index a h) (\<lambda>idx.
        let last = - 1 in
        then_do (chain_find a h k idx) (\<lambda>r.
          case r of
            Some i \<Rightarrow>
              (let item = entries a ! nat i in
               then_do
                 (if last < 0 then
                    then_do (store (buckets a) idx (next (entries a ! nat i))) (\<lambda>bs.
                      Returns (a\<lparr>buckets := bs\<rparr>))
                  else
                    then_do (load (entries a) last) (\<lambda>item'.
                      then_do
                        (store (entries a) last (item'\<lparr>next := next (entries a ! nat i)\<rparr>))
                        (\<lambda>es. Returns (a\<lparr>entries := es\<rparr>))))
                 (\<lambda>a1.
                    let empty = \<lparr>hash = 0, key = default, value = default,
                                 next = freeCount a1, alive = False\<rparr>;
                        a2 = a1\<lparr>entries := (entries a1)[nat i := empty]\<rparr>;
                        a3 = a2\<lparr>freeCount := i\<rparr>;
                        a4 = a3\<lparr>freeCount := freeCount a3 + 1\<rparr>
                    in Returns (Some (value item), a4)))
          | None \<Rightarrow> Returns (None, a))))"

text \<open>\<^verbatim>\<open>Clear\<close> (lines 263-270): two loops over the two arrays, and nothing else.\<close>

definition Clear :: "('k::default, 'v::default) hashMap \<Rightarrow> ('k, 'v) hashMap" where
  "Clear a = a\<lparr>buckets := map (\<lambda>_. - 1) (buckets a),
               entries := map (\<lambda>_. zero_entry) (entries a)\<rparr>"

section \<open>Iteration\<close>

record ('k, 'v) hashMapIterator =
  iter_index :: int
  iter_source :: "('k, 'v) hashMap"

definition Iter :: "('k, 'v) hashMap \<Rightarrow> ('k, 'v) hashMapIterator" where
  "Iter a = \<lparr>iter_index = - 1, iter_source = a\<rparr>"

text \<open>\<^verbatim>\<open>Next\<close> (lines 319-328): the item, if any, and the advanced iterator.\<close>

function Next ::
  "('k, 'v) hashMapIterator
     \<Rightarrow> (('k \<times> 'v) option \<times> ('k, 'v) hashMapIterator) outcome" where
  "Next a =
     (if iter_index a < int (length (entries (iter_source a))) - 1 then
        (let a1 = a\<lparr>iter_index := iter_index a + 1\<rparr> in
         then_do (load (entries (iter_source a1)) (iter_index a1)) (\<lambda>item.
           if alive item then Returns (Some (key item, value item), a1)
           else Next a1))
      else Returns (None, a))"
  by pat_completeness auto
termination
  by (relation "measure (\<lambda>a. nat (int (length (entries (iter_source a))) - 1 - iter_index a))")
    auto

text \<open>What a full iteration yields: \<^verbatim>\<open>Next\<close> is called until it returns no item, the way
  the loop of \<^verbatim>\<open>PutAll\<close> (line 162) drives an iterator.\<close>

function yielded :: "('k, 'v) hashMapIterator \<Rightarrow> ('k \<times> 'v) list outcome" where
  "yielded a =
     (case Next a of
        Returns (Some item, a1) \<Rightarrow>
          (case yielded a1 of
             Returns items \<Rightarrow> Returns (item # items)
           | Panics e \<Rightarrow> Panics e
           | Diverges \<Rightarrow> Diverges)
      | Returns (None, a1) \<Rightarrow> Returns []
      | Panics e \<Rightarrow> Panics e
      | Diverges \<Rightarrow> Diverges)"
  by pat_completeness auto
termination
proof (relation "measure (\<lambda>a. nat (int (length (entries (iter_source a))) - iter_index a))")
  show "wf (measure (\<lambda>a::('k, 'v) hashMapIterator.
              nat (int (length (entries (iter_source a))) - iter_index a)))"
    by simp
next
  fix a :: "('k, 'v) hashMapIterator" and x1 x2 x2a item
  assume nx: "Next a = Returns x1" and x1: "(x2, x2a) = x1" and x2: "x2 = Some item"
  have adv: "Next b = Returns (Some p, b1) \<Longrightarrow>
      iter_source b1 = iter_source b \<and> iter_index b < iter_index b1 \<and>
      iter_index b1 < int (length (entries (iter_source b)))"
    for b b1 :: "('k, 'v) hashMapIterator" and p
  proof (induction b rule: Next.induct)
    case (1 c)
    show ?case
    proof (cases "iter_index c < int (length (entries (iter_source c))) - 1")
      case False
      with "1.prems" show ?thesis by simp
    next
      case True
      let ?c1 = "c\<lparr>iter_index := iter_index c + 1\<rparr>"
      show ?thesis
      proof (cases "load (entries (iter_source ?c1)) (iter_index ?c1)")
        case (Returns e)
        show ?thesis
        proof (cases "alive e")
          case True
          with \<open>iter_index c < int (length (entries (iter_source c))) - 1\<close> Returns "1.prems"
          show ?thesis by (auto simp: then_do_def Let_def)
        next
          case False
          with \<open>iter_index c < int (length (entries (iter_source c))) - 1\<close> Returns "1.prems"
          have "Next ?c1 = Returns (Some p, b1)"
            by (simp add: then_do_def Let_def)
          from "1.IH" [OF \<open>iter_index c < int (length (entries (iter_source c))) - 1\<close> refl False this]
          show ?thesis by simp
        qed
      next
        case (Panics e)
        with True "1.prems" show ?thesis by (simp add: then_do_def Let_def)
      next
        case Diverges
        with True "1.prems" show ?thesis by (simp add: then_do_def Let_def)
      qed
    qed
  qed
  from nx x1 x2 have "Next a = Returns (Some item, x2a)" by simp
  from adv [OF this]
  show "(x2a, a) \<in> measure (\<lambda>a. nat (int (length (entries (iter_source a))) - iter_index a))"
    by simp
qed

section \<open>The set: \<^verbatim>\<open>hash_set.go\<close>\<close>

text \<open>\<^verbatim>\<open>hash_set.go\<close> names the table it wraps \<^verbatim>\<open>HashMap\<close> and its constructor
  \<^verbatim>\<open>MakeHashMap\<close>; the table of the repository is the one above, whose struct and iterator
  are still called \<^verbatim>\<open>hashMap\<close> and \<^verbatim>\<open>hashMapIterator\<close>. \<^verbatim>\<open>Void{}\<close> is \<open>()\<close>.\<close>

record 't HashSet =
  inner :: "('t, unit) hashMap"

definition MakeHashSet :: "('t \<Rightarrow> int) \<Rightarrow> int \<Rightarrow> ('t::default) HashSet outcome" where
  "MakeHashSet hasher' capacity =
     then_do (MakeHashDict hasher' capacity) (\<lambda>m. Returns \<lparr>inner = m\<rparr>)"

text \<open>\<^verbatim>\<open>HashSet.Put\<close> (lines 61-63): \<^verbatim>\<open>a.inner.Put(element, Void{}).IsSome()\<close>.\<close>

definition HashSet_Put :: "('t::default) HashSet \<Rightarrow> 't \<Rightarrow> (bool \<times> 't HashSet) outcome" where
  "HashSet_Put a element =
     then_do (Put (inner a) element ()) (\<lambda>(r, m). Returns (r \<noteq> None, a\<lparr>inner := m\<rparr>))"

definition HashSet_Remove :: "('t::default) HashSet \<Rightarrow> 't \<Rightarrow> (bool \<times> 't HashSet) outcome" where
  "HashSet_Remove a element =
     then_do (Remove (inner a) element) (\<lambda>(r, m). Returns (r \<noteq> None, a\<lparr>inner := m\<rparr>))"

definition HashSet_Contains :: "'t HashSet \<Rightarrow> 't \<Rightarrow> bool outcome" where
  "HashSet_Contains a element = Contains (inner a) element"

section \<open>Sequences of operations\<close>

text \<open>One mutating operation of the table that returns, and the tables that a constructor
  call followed by such operations can produce.\<close>

inductive step :: "('k::default, 'v::default) hashMap \<Rightarrow> ('k, 'v) hashMap \<Rightarrow> bool" where
  step_Put: "Put a k v = Returns (r, a') \<Longrightarrow> step a a'"
| step_GetAndPut: "GetAndPut a k f = Returns (q, a') \<Longrightarrow> step a a'"
| step_Remove: "Remove a k = Returns (r, a') \<Longrightarrow> step a a'"
| step_Clear: "step a (Clear a)"


text \<open>Two concrete tables: the one \<^verbatim>\<open>MakeHashDict(NumberHasher[int], 0)\<close> returns, and
  that table after \<^verbatim>\<open>Put(i, i + 100)\<close> for \<open>i = 0, ..., 29\<close>.\<close>

definition fresh_table :: "(int, int) hashMap" where
  "fresh_table = \<lparr>buckets = replicate 16 (- 1), entries = replicate 10 zero_entry,
                   appendCount = 0, freeCount = 0, freeSize = 0,
                   hasher = NumberHasher, loadFactor = 1\<rparr>"


declare rehash_loop.simps [simp del] Next.simps [simp del] yielded.simps [simp del]

section \<open>Outcomes, loads and stores\<close>

lemma then_do_Returns:
  "then_do m f = Returns y \<Longrightarrow> \<exists>x. m = Returns x \<and> f x = Returns y"
  by (cases m) (simp_all add: then_do_def)

lemma load_Returns: "load xs i = Returns x \<Longrightarrow> 0 \<le> i \<and> i < int (length xs)"
  by (simp add: load_def split: if_splits)


lemma make_Returns:
  "make_slice elemSize n zero = Returns xs \<Longrightarrow> xs = replicate (nat n) zero \<and> elemSize * n \<le> maxAlloc"
  by (auto simp: make_slice_def split: if_splits)

lemma chain_find_in_range:
  "chain_find a h k idx = Returns r \<Longrightarrow> 0 \<le> idx \<and> idx < int (length (buckets a))"
  by (auto simp: chain_find_def dest!: then_do_Returns load_Returns)

lemma fresh_table_made: "MakeHashDict NumberHasher 0 = Returns fresh_table"
  by (simp add: MakeHashDict_def bucketsSizeFor_def bucketsSizeFor_loop.simps then_do_def
      make_slice_def maxAlloc_def intSize_def entrySize_def defaultElementsSize_def fresh_table_def)

section \<open>The size of the bucket array at construction\<close>

text \<open>The doubling of \<^verbatim>\<open>bucketsSizeFor\<close> stays below \<open>2 ^ 63\<close> as long as the requested
  size is at most \<open>2 ^ 62\<close>; beyond that it wraps to \<open>-2 ^ 63\<close> and then to \<open>0\<close>, where
  the loop stays for ever. A constructor call that returns has both its slices accepted
  by \<^verbatim>\<open>make\<close>.\<close>

lemma wrap64_id: "- (2 ^ 63) \<le> x \<Longrightarrow> x < 2 ^ 63 \<Longrightarrow> wrap64 x = x"
  by (simp add: wrap64_def)

lemma wrap64_nonneg: "0 \<le> x \<Longrightarrow> x \<le> 2 ^ 62 \<Longrightarrow> wrap64 x = x"
  by (simp add: wrap64_def)

lemma wrap64_pow2: "(2::int) ^ n \<le> 2 ^ 62 \<Longrightarrow> wrap64 (2 ^ n) = 2 ^ n"
  by (rule wrap64_nonneg) simp_all

lemma wrap64_zero: "wrap64 0 = 0"
  by (simp add: wrap64_def)

lemma wrap64_min: "wrap64 (- (2 ^ 63) * 2) = 0"
  by (simp add: wrap64_def)

lemma wrap64_top: "wrap64 (2 ^ 62 * 2) = - (2 ^ 63)"
  by (simp add: wrap64_def)

lemma pow2_le_62: "j \<le> 62 \<Longrightarrow> (2::int) ^ j \<le> 2 ^ 62"
  by (rule power_increasing) simp_all

text \<open>Whatever the loop returns from a power of two between \<open>16\<close> and \<open>2 ^ 62\<close> is the
  first power of two from there on that is not below the requested size; from \<open>0\<close> or
  \<open>-2 ^ 63\<close> with a requested size above \<open>2 ^ 62\<close> it returns nothing.\<close>

lemma bucketsSizeFor_loop_sound:
  assumes run: "bucketsSizeFor_loop sz0 b0 = Some y0"
  shows "((\<exists>j. 4 \<le> j \<and> j \<le> 62 \<and> b0 = 2 ^ j) \<longrightarrow>
            (\<exists>j. 4 \<le> j \<and> j \<le> 62 \<and> y0 = 2 ^ j \<and> sz0 \<le> y0 \<and> b0 \<le> y0
                 \<and> (b0 < y0 \<longrightarrow> y0 < 2 * sz0)))
         \<and> \<not> ((b0 = 0 \<or> b0 = - (2 ^ 63)) \<and> 2 ^ 62 < sz0)"
proof -
  let ?Q = "\<lambda>sz b y.
     ((\<exists>j. 4 \<le> j \<and> j \<le> 62 \<and> b = 2 ^ j) \<longrightarrow>
        (\<exists>j. 4 \<le> j \<and> j \<le> 62 \<and> y = 2 ^ j \<and> sz \<le> y \<and> b \<le> y
             \<and> (b < y \<longrightarrow> y < 2 * sz)))
     \<and> \<not> ((b = 0 \<or> b = - (2 ^ 63)) \<and> (2::int) ^ 62 < sz)"
  have "?Q sz0 b0 y0"
  proof (rule bucketsSizeFor_loop.raw_induct [where P = ?Q])
    show "bucketsSizeFor_loop sz0 b0 = Some y0" by (rule run)
  next
    fix loop :: "int \<Rightarrow> int \<Rightarrow> int option" and sz b y :: int
    assume IH: "\<And>s c z. loop s c = Some z \<Longrightarrow> ?Q s c z"
      and eq: "(if b < sz then loop sz (wrap64 (b * 2)) else Some b) = Some y"
    have stuck: "\<not> ((b = 0 \<or> b = - (2 ^ 63)) \<and> 2 ^ 62 < sz)"
    proof
      assume a: "(b = 0 \<or> b = - (2 ^ 63)) \<and> 2 ^ 62 < sz"
      then have "b < sz" by auto
      moreover from a have "wrap64 (b * 2) = 0"
        using wrap64_zero wrap64_min by auto
      ultimately have "loop sz 0 = Some y" using eq by simp
      from IH [OF this] a show False by simp
    qed
    have pow: "\<exists>j'. 4 \<le> j' \<and> j' \<le> 62 \<and> y = 2 ^ j' \<and> sz \<le> y \<and> b \<le> y
        \<and> (b < y \<longrightarrow> y < 2 * sz)"
      if j: "4 \<le> j" "j \<le> 62" "b = 2 ^ j" for j
    proof (cases "b < sz")
      case False
      with eq have "y = b" by simp
      with False j show ?thesis by auto
    next
      case True
      with eq have step: "loop sz (wrap64 (b * 2)) = Some y" by simp
      show ?thesis
      proof (cases "j = 62")
        case True
        with j have "wrap64 (b * 2) = - (2 ^ 63)" using wrap64_top by simp
        with step have "loop sz (- (2 ^ 63)) = Some y" by simp
        from IH [OF this] have "\<not> 2 ^ 62 < sz" by simp
        with \<open>b < sz\<close> j True show ?thesis by simp
      next
        case False
        with j have j': "Suc j \<le> 62" by simp
        have b2: "b * 2 = 2 ^ Suc j" using j by simp
        have le: "(2::int) ^ Suc j \<le> 2 ^ 62" using j' by (rule pow2_le_62)
        have w: "wrap64 (2 ^ Suc j) = 2 ^ Suc j"
          using le by (rule wrap64_pow2)
        have "wrap64 (b * 2) = 2 ^ Suc j"
          unfolding b2 by (rule w)
        with step have "loop sz (2 ^ Suc j) = Some y" by simp
        from IH [OF this] j j'
        obtain i where i: "4 \<le> i" "y = 2 ^ i" "sz \<le> y" "(2::int) ^ Suc j \<le> y"
            "(2::int) ^ Suc j < y \<longrightarrow> y < 2 * sz" "i \<le> 62"
          by (auto simp del: power_Suc)
        have pos: "(0::int) \<le> 2 ^ j" by simp
        have i4: "2 * 2 ^ j \<le> y" using i(4) by simp
        have "b \<le> y" using i4 pos j(3) by linarith
        moreover have "y < 2 * sz" if "b < y"
        proof (cases "(2::int) ^ Suc j < y")
          case True
          with i(5) show ?thesis by simp
        next
          case False
          with i(4) have "y = 2 * b" using j(3) by simp
          with \<open>b < sz\<close> show ?thesis by simp
        qed
        ultimately show ?thesis using i by blast
      qed
    qed
    from stuck pow show "?Q sz b y" by blast
  qed
  then show ?thesis .
qed

lemma bucketsSizeFor_loop_returns:
  "sz \<le> 2 ^ 62 \<Longrightarrow> 4 \<le> j \<Longrightarrow> j \<le> 62 \<Longrightarrow> \<exists>y. bucketsSizeFor_loop sz (2 ^ j) = Some y"
proof (induction "62 - j" arbitrary: j)
  case 0
  then have "j = 62" by simp
  with "0.prems" show ?case
    by (subst bucketsSizeFor_loop.simps) simp
next
  case (Suc n)
  show ?case
  proof (cases "(2::int) ^ j < sz")
    case False
    then show ?thesis by (subst bucketsSizeFor_loop.simps) simp
  next
    case True
    from Suc.hyps(2) have j': "Suc j \<le> 62" "n = 62 - Suc j" by simp_all
    have "(2::int) ^ Suc j \<le> 2 ^ 62" using j'(1) by (rule pow2_le_62)
    then have w: "wrap64 (2 ^ Suc j) = 2 ^ Suc j"
      by (rule wrap64_pow2)
    have b2: "(2::int) ^ j * 2 = 2 ^ Suc j" by simp
    have "wrap64 (2 ^ j * 2) = 2 ^ Suc j"
      unfolding b2 by (rule w)
    moreover from Suc.hyps(1) [OF j'(2) Suc.prems(1)] j' Suc.prems(2)
    obtain y where "bucketsSizeFor_loop sz (2 ^ Suc j) = Some y" by auto
    ultimately show ?thesis using True
      by (subst bucketsSizeFor_loop.simps) (simp del: power_Suc)
  qed
qed

lemma bucketsSizeFor_sound:
  assumes "bucketsSizeFor capacity = Returns n"
  shows "\<exists>j. 4 \<le> j \<and> j \<le> 62 \<and> n = 2 ^ j \<and> capacity \<le> n
           \<and> (4 < j \<longrightarrow> 2 ^ (j - 1) < capacity)"
proof -
  from assms have l: "bucketsSizeFor_loop capacity (2 ^ 4) = Some n"
    by (simp add: bucketsSizeFor_def split: option.splits)
  have "\<exists>j. 4 \<le> j \<and> j \<le> 62 \<and> (2::int) ^ 4 = 2 ^ j" by (rule exI [of _ 4]) simp
  with bucketsSizeFor_loop_sound [OF l]
  obtain j where j: "4 \<le> j" "n = 2 ^ j" "capacity \<le> n" "(2::int) ^ 4 < n \<longrightarrow> n < 2 * capacity"
      "j \<le> 62"
    by blast
  have "2 ^ (j - 1) < capacity" if "4 < j"
  proof -
    from that have e: "j = Suc (j - 1)" by simp
    have "(2::int) ^ 4 < 2 ^ j" using that by (rule power_strict_increasing) simp
    with j have "n < 2 * capacity" by simp
    moreover have "n = 2 * 2 ^ (j - 1)" using j(2) e by (metis power_Suc)
    ultimately show ?thesis by simp
  qed
  with j show ?thesis by blast
qed

lemma bucketsSizeFor_returns:
  "capacity \<le> 2 ^ 62 \<Longrightarrow> \<exists>n. bucketsSizeFor capacity = Returns n"
  using bucketsSizeFor_loop_returns [of capacity 4]
  by (auto simp: bucketsSizeFor_def)


lemma bucketsSizeFor_loop_stuck:
  assumes "2 ^ 62 < capacity"
  shows "bucketsSizeFor_loop capacity 16 = None"
proof (cases "bucketsSizeFor_loop capacity 16")
  case None
  then show ?thesis .
next
  case (Some n)
  then have "bucketsSizeFor capacity = Returns n" by (simp add: bucketsSizeFor_def)
  from bucketsSizeFor_sound [OF this]
  obtain j where j: "j \<le> 62" "n = 2 ^ j" "capacity \<le> n" by blast
  from j(1) have "(2::int) ^ j \<le> 2 ^ 62" by (rule pow2_le_62)
  with j(2,3) assms show ?thesis by simp
qed

lemma MakeHashDict_diverges:
  "2 ^ 62 < capacity \<Longrightarrow> MakeHashDict h capacity = Diverges"
  by (simp add: MakeHashDict_def bucketsSizeFor_def bucketsSizeFor_loop_stuck then_do_def)

text \<open>Between \<open>2 ^ 45\<close> and \<open>2 ^ 62\<close> the loop returns, and \<^verbatim>\<open>make\<close> refuses the bucket
  array: \<^verbatim>\<open>MakeHashDict\<close> panics.\<close>

lemma MakeHashDict_panics:
  assumes "2 ^ 45 < capacity" and "capacity \<le> 2 ^ 62"
  shows "MakeHashDict h capacity = Panics LenOutOfRange"
proof -
  from bucketsSizeFor_returns [OF assms(2)] obtain n where n: "bucketsSizeFor capacity = Returns n"
    by blast
  from bucketsSizeFor_sound [OF n] have "capacity \<le> n" by blast
  with assms(1) have "make_slice intSize n (0::int) = Panics LenOutOfRange"
    by (simp add: make_slice_def maxAlloc_def intSize_def)
  with n show ?thesis by (simp add: MakeHashDict_def then_do_def)
qed

section \<open>The size of the bucket array under the operations\<close>

lemma rehash_loop_length:
  "rehash_loop i es nb n = Returns (es', nb')
     \<Longrightarrow> length es' = length es \<and> length nb' = length nb"
proof (induction i es nb n rule: rehash_loop.induct)
  case (1 i es nb n)
  show ?case
  proof (cases "i < length es")
    case False
    with "1.prems" show ?thesis by (simp add: rehash_loop.simps [of i es nb n])
  next
    case inside: True
    show ?thesis
    proof (cases "alive (es ! i)")
      case False
      with inside "1.prems" have "rehash_loop (i + 1) es nb n = Returns (es', nb')"
        by (simp add: rehash_loop.simps [of i es nb n])
      from "1.IH"(2) [OF inside refl False this] show ?thesis .
    next
      case True
      with inside "1.prems" have n: "n \<noteq> 0"
        by (auto simp: rehash_loop.simps [of i es nb n])
      from inside True n "1.prems"
      have "then_do (load nb (rem_go (hash (es ! i)) n)) (\<lambda>head.
              rehash_loop (i + 1) (es[i := (es ! i)\<lparr>next := head\<rparr>])
                (nb[nat (rem_go (hash (es ! i)) n) := int i]) n) = Returns (es', nb')"
        by (simp add: rehash_loop.simps [of i es nb n] Let_def)
      from then_do_Returns [OF this] obtain head where
        "rehash_loop (i + 1) (es[i := (es ! i)\<lparr>next := head\<rparr>])
           (nb[nat (rem_go (hash (es ! i)) n) := int i]) n = Returns (es', nb')"
        by blast
      from "1.IH"(1) [OF inside refl True n refl this] show ?thesis by simp
    qed
  qed
qed










section \<open>The set's \<^verbatim>\<open>Put\<close>\<close>

text \<open>
  C1. The claim: \<^verbatim>\<open>HashSet.Put(e)\<close> returns \<open>true\<close> exactly when \<open>e\<close> was newly added, so
  \<open>true\<close> the first time and \<open>false\<close> on every later \<^verbatim>\<open>Put\<close> of the same element.
  The code returns \<^verbatim>\<open>IsSome()\<close> of the table's previous value: on a fresh set of
  integers the first \<^verbatim>\<open>Put(1)\<close> returns \<open>false\<close> and the second and third return \<open>true\<close>.
\<close>

theorem C1_set_put_reports_presence:
  "then_do (MakeHashSet NumberHasher 0) (\<lambda>s0.
     then_do (HashSet_Put s0 1) (\<lambda>(b1, s1).
       then_do (HashSet_Put s1 1) (\<lambda>(b2, s2).
         then_do (HashSet_Put s2 1) (\<lambda>(b3, s3). Returns (b1, b2, b3)))))
   = Returns (False, True, True)"
  by code_simp

text \<open>In general: whenever \<^verbatim>\<open>HashSet.Put\<close> returns, it returns what \<^verbatim>\<open>Contains\<close>
  returned just before, since \<^verbatim>\<open>Put\<close> of the table returns what \<^verbatim>\<open>TryGet\<close> finds.\<close>

lemma Put_returns_TryGet:
  "Put a k v = Returns (r, a') \<Longrightarrow> TryGet a k = Returns r"
  by (auto simp: Put_def TryGet_def Let_def then_do_def
      split: outcome.splits option.splits prod.splits)

lemma HashSet_Put_reports_presence:
  "HashSet_Put s e = Returns (b, s') \<Longrightarrow> Contains (inner s) e = Returns b"
  by (auto simp: HashSet_Put_def Contains_def then_do_def
      split: outcome.splits prod.splits dest!: Put_returns_TryGet)

section \<open>Size accounting\<close>

text \<open>
  C2. The claim: \<^verbatim>\<open>Size()\<close> is the number of live entries, which is the append count
  minus the number of free slots, and a fresh table has size \<open>0\<close> and is empty.
  The code computes \<^verbatim>\<open>appendCount - freeSize + 1\<close>: the fresh table \<open>a0\<close> has no live
  entry, \<^verbatim>\<open>Size() = 1\<close> and \<^verbatim>\<open>IsEmpty() = false\<close>; after \<^verbatim>\<open>Put(1, 10)\<close> and
  \<^verbatim>\<open>Remove(1)\<close> there is again no live entry, \<^verbatim>\<open>Size() = 2\<close>, and
  \<^verbatim>\<open>appendCount - freeSize = 1\<close>, since \<^verbatim>\<open>Remove\<close> does not count the freed slot.
\<close>

theorem C2_size_of_fresh_table:
  "then_do (MakeHashDict NumberHasher 0) (\<lambda>a0 :: (int, int) hashMap.
     then_do (Put a0 1 10) (\<lambda>(r1, a1).
       then_do (Remove a1 1) (\<lambda>(r2, a2).
         Returns ((Size a0, IsEmpty a0, length (filter alive (entries a0))),
                  (Size a2, IsEmpty a2, length (filter alive (entries a2)),
                   appendCount a2 - freeSize a2)))))
   = Returns ((1, False, 0), (2, False, 0, 1))"
  by code_simp

text \<open>Every table a constructor call returns has \<^verbatim>\<open>Size() = 1\<close>.\<close>

lemma MakeHashDict_Size:
  "MakeHashDict h capacity = Returns a \<Longrightarrow> Size a = 1 \<and> \<not> IsEmpty a"
  by (auto simp: MakeHashDict_def Size_def IsEmpty_def Let_def dest!: then_do_Returns)

section \<open>Removal\<close>

text \<open>
  C3. The claim: \<^verbatim>\<open>Remove\<close> of a present key splices the entry out of its chain, clears
  it, makes the freed slot the head of the free list, with one more free slot counted,
  and returns the removed value.
  On the fresh table, \<^verbatim>\<open>Put(1, 10)\<close> fills slot \<open>0\<close>, the head of bucket \<open>1\<close>.
  \<^verbatim>\<open>Remove(1)\<close> returns \<open>Some 10\<close>, clears slot \<open>0\<close> and empties the bucket, but leaves
  the free-list head (\<^verbatim>\<open>freeCount\<close>) at \<open>1\<close>, one past the freed slot, and the number of
  free slots (\<^verbatim>\<open>freeSize\<close>) at \<open>0\<close>.
\<close>

theorem C3_remove_free_list_head:
  "then_do (MakeHashDict NumberHasher 0) (\<lambda>a0 :: (int, int) hashMap.
     then_do (Put a0 1 10) (\<lambda>(r1, a1).
       then_do (Remove a1 1) (\<lambda>(r2, a2).
         Returns (buckets a1 ! 1, r2, freeCount a1, freeCount a2, freeSize a1, freeSize a2,
                  entries a2 ! 0, buckets a2 ! 1))))
   = Returns (0, Some 10, 0, 1, 0, 0,
              \<lparr>hash = 0, key = 0, value = 0, next = 0, alive = False\<rparr>, - 1)"
  by code_simp

text \<open>
  The splice itself: keys \<open>0\<close> and \<open>16\<close> share bucket \<open>0\<close> of 16, with the later key \<open>16\<close>
  (slot \<open>1\<close>) at the head and \<open>0\<close> (slot \<open>0\<close>) behind it. \<^verbatim>\<open>Remove(0)\<close> sets the bucket
  head to the successor of the removed slot, so the live slot \<open>1\<close> in front of it leaves
  the chain and \<^verbatim>\<open>TryGet(16)\<close> finds nothing.
\<close>

lemma remove_drops_chain_prefix:
  "then_do (MakeHashDict NumberHasher 0) (\<lambda>a0 :: (int, int) hashMap.
     then_do (PutAll a0 [(0, 1), (16, 2)]) (\<lambda>a1.
       then_do (TryGet a1 16) (\<lambda>g1.
         then_do (Remove a1 0) (\<lambda>(r, a2).
           then_do (TryGet a2 16) (\<lambda>g2.
             Returns (buckets a1 ! 0, next (entries a1 ! 1), g1, r, buckets a2 ! 0,
                      alive (entries a2 ! 1), g2))))))
   = Returns (1, 0, Some 2, Some 1, - 1, True, None)"
  by code_simp

text \<open>On every table, what \<^verbatim>\<open>Remove\<close> does when the scan matches slot \<open>i\<close> in bucket
  \<open>idx\<close>: the bucket head becomes the successor of slot \<open>i\<close>, the slot is cleared with the
  old \<^verbatim>\<open>freeCount\<close> as its link, \<^verbatim>\<open>freeCount\<close> becomes \<open>i + 1\<close>, \<^verbatim>\<open>freeSize\<close> is not
  touched, and the value of the slot is returned.\<close>

lemma Remove_found:
  assumes "index a (hasher a k) = Returns idx"
    and "chain_find a (hasher a k) k idx = Returns (Some i)"
  shows "Remove a k = Returns (Some (value (entries a ! nat i)),
           a\<lparr>buckets := (buckets a)[nat idx := next (entries a ! nat i)],
             entries := (entries a)[nat i := \<lparr>hash = 0, key = default, value = default,
                                               next = freeCount a, alive = False\<rparr>],
             freeCount := i + 1\<rparr>)"
proof -
  from chain_find_in_range [OF assms(2)]
  have "store (buckets a) idx (next (entries a ! nat i))
          = Returns ((buckets a)[nat idx := next (entries a ! nat i)])"
    by (simp add: store_def)
  with assms show ?thesis
    by (simp add: Remove_def Let_def then_do_def)
qed

section \<open>Growth of the entry store\<close>

text \<open>
  C4. The claim: when a \<^verbatim>\<open>Put\<close> of a new key finds the append region exhausted, the
  entry store grows to \<open>old + old / 2\<close> slots, every slot keeping its index.
  On the fresh table with 10 slots, nine keys leave \<^verbatim>\<open>appendCount = 9\<close> and slot \<open>9\<close>
  unused; the tenth \<^verbatim>\<open>Put\<close> already grows the store, to 30 slots
  (\<^verbatim>\<open>entriesSize + (entriesSize << 1)\<close>), and the nine slots keep their indices.
\<close>

theorem C4_entries_triple:
  "then_do (MakeHashDict NumberHasher 0) (\<lambda>a0 :: (int, int) hashMap.
     then_do (PutAll a0 (map (\<lambda>i. (i, i)) [0..8])) (\<lambda>a9.
       then_do (Put a9 9 9) (\<lambda>(r, a10).
         Returns (length (entries a9), appendCount a9, alive (entries a9 ! 9), r,
                  length (entries a10), take 9 (entries a10) = take 9 (entries a9)))))
   = Returns (10, 9, False, None, 30, True)"
  by code_simp

text \<open>Whenever \<^verbatim>\<open>grow\<close> enlarges the entry store, the new length is three times the
  old one.\<close>

lemma grow_entries_length:
  assumes "grow a newSize = Returns a'" and "int (length (entries a)) < newSize"
  shows "length (entries a') = 3 * length (entries a)"
  using assms
  by (auto simp: grow_def Let_def copy_def push_bit_eq_mult nat_add_distrib nat_mult_distrib
      split: if_splits dest!: then_do_Returns rehash_loop_length make_Returns)

section \<open>Clear\<close>

text \<open>
  C5. The claim: \<^verbatim>\<open>Clear()\<close> empties every bucket, zeroes every entry, keeps both
  lengths and resets the append count, the free count and the free-list head to those of
  an empty table, so that the size is \<open>0\<close> and iteration yields nothing.
  After \<^verbatim>\<open>Put(1, 10)\<close>, \<^verbatim>\<open>Put(2, 20)\<close>, \<^verbatim>\<open>Remove(2)\<close>, \<^verbatim>\<open>Clear()\<close> the buckets are all
  \<open>-1\<close>, the entries all zero and iteration yields nothing, but \<^verbatim>\<open>appendCount\<close> is
  still \<open>2\<close> and \<^verbatim>\<open>freeCount\<close> still \<open>2\<close>, where the fresh table has \<open>0\<close> and \<open>0\<close>, and
  \<^verbatim>\<open>Size()\<close> is \<open>3\<close>.
\<close>

theorem C5_clear_keeps_counters:
  "then_do (MakeHashDict NumberHasher 0) (\<lambda>a0 :: (int, int) hashMap.
     then_do (PutAll a0 [(1, 10), (2, 20)]) (\<lambda>a1.
       then_do (Remove a1 2) (\<lambda>(r, a2).
         Returns (buckets (Clear a2) = replicate 16 (- 1),
                  entries (Clear a2) = replicate 10 zero_entry,
                  yielded (Iter (Clear a2)),
                  (appendCount a0, freeCount a0, freeSize a0, Size a0),
                  (appendCount (Clear a2), freeCount (Clear a2), freeSize (Clear a2),
                   Size (Clear a2))))))
   = Returns (True, True, Returns [], (0, 0, 0, 1), (2, 2, 0, 3))"
  by code_simp

text \<open>On every table \<^verbatim>\<open>Clear\<close> writes the two arrays and leaves the three counters, and
  so \<^verbatim>\<open>Size()\<close>, as they were.\<close>

lemma Clear_fields:
  "buckets (Clear a) = replicate (length (buckets a)) (- 1)
   \<and> entries (Clear a) = replicate (length (entries a)) zero_entry
   \<and> appendCount (Clear a) = appendCount a \<and> freeCount (Clear a) = freeCount a
   \<and> freeSize (Clear a) = freeSize a \<and> Size (Clear a) = Size a"
  by (simp add: Clear_def Size_def map_replicate_const)

section \<open>Lookup after insertion\<close>

text \<open>
  C6. The claim: after \<^verbatim>\<open>Put\<close> of pairs with distinct keys, \<^verbatim>\<open>TryGet\<close> of each key
  returns its value, also when the insertions force growth.
  On the fresh table the keys \<open>0, ..., 30\<close> are put with values \<open>100, ..., 130\<close>. The 31st
  \<^verbatim>\<open>Put\<close> doubles the 16 buckets; its bucket index \<open>30 % 16 = 14\<close> was computed before
  the growth, so slot \<open>30\<close> becomes the head of bucket \<open>14\<close> of 32, bucket \<open>30\<close> stays
  empty and \<^verbatim>\<open>TryGet(30)\<close> returns nothing.
\<close>

theorem C6_lookup_after_growth:
  "then_do (MakeHashDict NumberHasher 0) (\<lambda>a0 :: (int, int) hashMap.
     then_do (PutAll a0 (map (\<lambda>i. (i, i + 100)) [0..29])) (\<lambda>a30.
       then_do (Put a30 30 130) (\<lambda>(r, a31).
         then_do (TryGet a31 30) (\<lambda>g.
           Returns (length (buckets a30), r, length (buckets a31), g,
                    buckets a31 ! 14, key (entries a31 ! 30), buckets a31 ! 30)))))
   = Returns (16, None, 32, None, 30, 30, - 1)"
  by code_simp

section \<open>Remove and Contains\<close>

text \<open>
  C7. The claim: \<^verbatim>\<open>Remove\<close> of a present key returns its value and afterwards
  \<^verbatim>\<open>Contains\<close> is false; \<^verbatim>\<open>Remove\<close> of an absent key returns nothing and changes nothing.
  \<^verbatim>\<open>Put(0, 1)\<close>, \<^verbatim>\<open>Put(16, 2)\<close>, \<^verbatim>\<open>Remove(0)\<close> leave the live slot of key \<open>16\<close> outside
  its chain, so \<^verbatim>\<open>Put(16, 3)\<close> fills a second slot with key \<open>16\<close>. The 28 keys
  \<open>1, ..., 15, 17, ..., 29\<close> then bring the table to its 31st slot, whose \<^verbatim>\<open>Put\<close> rehashes
  every live slot, both slots of key \<open>16\<close> into one chain. Now \<^verbatim>\<open>TryGet(16)\<close> is
  \<open>Some 3\<close>, \<^verbatim>\<open>Remove(16)\<close> returns \<open>Some 3\<close>, and afterwards \<^verbatim>\<open>Contains(16)\<close> is true and
  \<^verbatim>\<open>TryGet(16)\<close> is \<open>Some 2\<close>.
\<close>

theorem C7_remove_leaves_key:
  "then_do (MakeHashDict NumberHasher 0) (\<lambda>a0 :: (int, int) hashMap.
     then_do (PutAll a0 [(0, 1), (16, 2)]) (\<lambda>a1.
       then_do (Remove a1 0) (\<lambda>(r1, a2).
         then_do (PutAll a2 ((16, 3) # map (\<lambda>i. (i, 0)) ([1..15] @ [17..29]))) (\<lambda>a3.
           then_do (TryGet a3 16) (\<lambda>g.
             then_do (Remove a3 16) (\<lambda>(r2, a4).
               then_do (Contains a4 16) (\<lambda>c.
                 then_do (TryGet a4 16) (\<lambda>g'.
                   Returns (r1, g, r2, c, g')))))))))
   = Returns (Some 1, Some 3, Some 3, True, Some 2)"
  by code_simp

text \<open>What does hold on every table: \<^verbatim>\<open>Remove\<close> of a key that \<^verbatim>\<open>TryGet\<close> does not find
  returns nothing and the table unchanged, and \<^verbatim>\<open>Remove\<close> of a key that \<^verbatim>\<open>TryGet\<close> finds
  returns the value found.\<close>

lemma Remove_absent:
  "TryGet a k = Returns None \<Longrightarrow> Remove a k = Returns (None, a)"
  by (auto simp: TryGet_def Remove_def Let_def then_do_def
      split: outcome.splits option.splits)

lemma Remove_present:
  assumes "TryGet a k = Returns (Some v)"
  shows "\<exists>a'. Remove a k = Returns (Some v, a')"
proof -
  from assms obtain idx i where idx: "index a (hasher a k) = Returns idx"
    and c: "chain_find a (hasher a k) k idx = Returns (Some i)"
    and v: "v = value (entries a ! nat i)"
    by (auto simp: TryGet_def Let_def then_do_def split: outcome.splits option.splits)
  from chain_find_in_range [OF c]
  have "store (buckets a) idx (next (entries a ! nat i))
          = Returns ((buckets a)[nat idx := next (entries a ! nat i)])"
    by (simp add: store_def)
  with idx c v show ?thesis
    by (simp add: Remove_def Let_def then_do_def)
qed

section \<open>Iteration and the number of keys\<close>

text \<open>
  C8. The claim: a full iteration yields each live entry once, in ascending slot order,
  and so as many items as there are keys logically present.
  After \<^verbatim>\<open>Put(0, 1)\<close>, \<^verbatim>\<open>Put(16, 2)\<close>, \<^verbatim>\<open>Remove(0)\<close>, \<^verbatim>\<open>Put(16, 3)\<close> the one key present is
  \<open>16\<close> (\<^verbatim>\<open>TryGet(0)\<close> is empty, \<^verbatim>\<open>TryGet(16)\<close> is \<open>Some 3\<close>), and the iteration yields two
  items, \<open>(16, 2)\<close> and \<open>(16, 3)\<close>.
\<close>

theorem C8_iteration_counts:
  "then_do (MakeHashDict NumberHasher 0) (\<lambda>a0 :: (int, int) hashMap.
     then_do (PutAll a0 [(0, 1), (16, 2)]) (\<lambda>a1.
       then_do (Remove a1 0) (\<lambda>(r, a2).
         then_do (Put a2 16 3) (\<lambda>(r', a3).
           then_do (TryGet a3 0) (\<lambda>g0.
             then_do (TryGet a3 16) (\<lambda>g16.
               Returns (r, r', g0, g16, yielded (Iter a3))))))))
   = Returns (Some 1, None, None, Some 3, Returns [(16, 2), (16, 3)])"
  by code_simp

text \<open>The first half of the claim holds on every table: a full iteration from a fresh
  iterator returns, and yields the key and value of exactly the live slots of the entry
  store, each once, in ascending slot order.\<close>

lemma yielded_from:
  "- 1 \<le> iter_index it \<Longrightarrow>
     yielded it = Returns (map (\<lambda>e. (key e, value e))
       (filter alive (drop (nat (iter_index it + 1)) (entries (iter_source it)))))"
proof (induction "length (entries (iter_source it)) - nat (iter_index it + 1)"
    arbitrary: it)
  case 0
  then have e: "\<not> iter_index it < int (length (entries (iter_source it))) - 1" by linarith
  then have "Next it = Returns (None, it)" by (simp add: Next.simps [of it])
  then have "yielded it = Returns []" by (simp add: yielded.simps [of it])
  moreover from e have "drop (nat (iter_index it + 1)) (entries (iter_source it)) = []"
    by simp
  ultimately show ?case by simp
next
  case (Suc n)
  let ?es = "entries (iter_source it)"
  let ?i = "nat (iter_index it + 1)"
  let ?it1 = "it\<lparr>iter_index := iter_index it + 1\<rparr>"
  from Suc.hyps(2) Suc.prems have lt: "iter_index it < int (length ?es) - 1" by linarith
  with Suc.prems have inside: "?i < length ?es" by linarith
  from Suc.prems lt have ld: "load ?es (iter_index it + 1) = Returns (?es ! ?i)"
    by (simp add: load_def)
  have n: "n = length (entries (iter_source ?it1)) - nat (iter_index ?it1 + 1)"
    using Suc.hyps(2) Suc.prems by simp
  have s: "nat (iter_index ?it1 + 1) = Suc ?i" using Suc.prems by simp
  have "- 1 \<le> iter_index ?it1" using Suc.prems by simp
  from Suc.hyps(1) [OF n this]
  have IH: "yielded ?it1 = Returns (map (\<lambda>e. (key e, value e))
      (filter alive (drop (Suc ?i) ?es)))"
    unfolding s by simp
  have dr: "drop ?i ?es = ?es ! ?i # drop (Suc ?i) ?es"
    using inside by (simp add: Cons_nth_drop_Suc)
  show ?case
  proof (cases "alive (?es ! ?i)")
    case True
    with lt ld have "Next it = Returns (Some (key (?es ! ?i), value (?es ! ?i)), ?it1)"
      by (simp add: Next.simps [of it] Let_def then_do_def)
    with IH have "yielded it = Returns ((key (?es ! ?i), value (?es ! ?i))
        # map (\<lambda>e. (key e, value e)) (filter alive (drop (Suc ?i) ?es)))"
      by (simp add: yielded.simps [of it])
    with True dr show ?thesis by simp
  next
    case False
    with lt ld have "Next it = Next ?it1"
      by (simp add: Next.simps [of it] Let_def then_do_def)
    then have "yielded it = yielded ?it1"
      by (simp add: yielded.simps [of it] yielded.simps [of ?it1])
    with IH False dr show ?thesis by simp
  qed
qed

lemma yielded_Iter:
  "yielded (Iter a) = Returns (map (\<lambda>e. (key e, value e)) (filter alive (entries a)))"
  using yielded_from [of "Iter a"] by (simp add: Iter_def)

section \<open>The length of the bucket array\<close>



section \<open>Negative hashes\<close>

text \<open>The remainder of a negative hash is negative unless the bucket count divides the
  hash, and a negative bucket index is out of range.\<close>

lemma rem_go_negative: "h < 0 \<Longrightarrow> 0 < n \<Longrightarrow> \<not> n dvd h \<Longrightarrow> rem_go h n < 0"
proof -
  assume h: "h < 0" and n: "0 < n" and d: "\<not> n dvd h"
  from d have "\<not> n dvd \<bar>h\<bar>" by simp
  then have "\<bar>h\<bar> mod n \<noteq> 0" by (simp add: dvd_eq_mod_eq_0)
  moreover from n have "0 \<le> \<bar>h\<bar> mod n" by simp
  ultimately have "0 < \<bar>h\<bar> mod n" by linarith
  with h n show ?thesis by (simp add: rem_go_def mult_less_0_iff)
qed

lemma chain_find_negative: "idx < 0 \<Longrightarrow> chain_find a h k idx = Panics IndexOutOfRange"
  by (simp add: chain_find_def load_def then_do_def)

lemma index_negative:
  assumes "h < 0" "buckets a \<noteq> []" "\<not> int (length (buckets a)) dvd h"
  shows "\<exists>i<0. index a h = Returns i"
  using assms rem_go_negative [of h "int (length (buckets a))"]
  by (simp add: index_def)

text \<open>
  C10, as amended. For every key whose hash is negative and not a multiple of the bucket
  count, on a table with at least one bucket, the bucket index \<^verbatim>\<open>hash % len(buckets)\<close>
  is negative, and \<^verbatim>\<open>TryGet\<close>, \<^verbatim>\<open>Put\<close>, \<^verbatim>\<open>GetAndPut\<close>, \<^verbatim>\<open>Remove\<close> and \<^verbatim>\<open>Contains\<close>
  panic with an index out of range.
\<close>

theorem C10_negative_hash_panics:
  assumes "hasher a k < 0" and "buckets a \<noteq> []"
    and "\<not> int (length (buckets a)) dvd hasher a k"
  shows "(\<exists>i<0. index a (hasher a k) = Returns i)
    \<and> TryGet a k = Panics IndexOutOfRange
    \<and> Put a k v = Panics IndexOutOfRange
    \<and> GetAndPut a k f = Panics IndexOutOfRange
    \<and> Remove a k = Panics IndexOutOfRange
    \<and> Contains a k = Panics IndexOutOfRange"
proof -
  from index_negative [OF assms] obtain i where i: "i < 0" "index a (hasher a k) = Returns i"
    by blast
  have c: "chain_find a (hasher a k) k i = Panics IndexOutOfRange"
    using i(1) by (rule chain_find_negative)
  have t: "TryGet a k = Panics IndexOutOfRange"
    using i(2) c by (simp add: TryGet_def then_do_def Let_def)
  have p: "Put a k v = Panics IndexOutOfRange"
    using i(2) c by (simp add: Put_def then_do_def Let_def)
  have g: "GetAndPut a k f = Panics IndexOutOfRange"
    using i(2) c by (simp add: GetAndPut_def then_do_def Let_def)
  have r: "Remove a k = Panics IndexOutOfRange"
    using i(2) c by (simp add: Remove_def then_do_def Let_def)
  have n: "Contains a k = Panics IndexOutOfRange"
    using t by (simp add: Contains_def then_do_def)
  from i t p g r n show ?thesis by blast
qed

text \<open>The theorem at the key \<open>-1\<close> on the default table of 16 buckets.\<close>

theorem C10_witness:
  "MakeHashDict NumberHasher 0 = Returns fresh_table
   \<and> hasher fresh_table (- 1) < 0 \<and> buckets fresh_table \<noteq> []
   \<and> \<not> int (length (buckets fresh_table)) dvd hasher fresh_table (- 1)
   \<and> (\<exists>i<0. index fresh_table (hasher fresh_table (- 1)) = Returns i)
   \<and> TryGet fresh_table (- 1) = Panics IndexOutOfRange
   \<and> Put fresh_table (- 1) 5 = Panics IndexOutOfRange
   \<and> GetAndPut fresh_table (- 1) (\<lambda>old. 5) = Panics IndexOutOfRange
   \<and> Remove fresh_table (- 1) = Panics IndexOutOfRange
   \<and> Contains fresh_table (- 1) = Panics IndexOutOfRange"
proof -
  have h: "hasher fresh_table (- 1) < 0"
    by (simp add: fresh_table_def NumberHasher_def)
  have b: "buckets fresh_table \<noteq> []"
    by (simp add: fresh_table_def)
  have d: "\<not> int (length (buckets fresh_table)) dvd hasher fresh_table (- 1)"
    by (simp add: fresh_table_def NumberHasher_def)
  from C10_negative_hash_panics [OF h b d, of 5 "\<lambda>old. 5"] h b d fresh_table_made
  show ?thesis by blast
qed

text \<open>
  C10 as stated fails at the key \<open>-16\<close> on the default table: the hash \<open>-16\<close> is
  negative, the bucket index \<open>-16 % 16\<close> is \<open>0\<close>, and every operation returns there.
\<close>

theorem C10_counterexample:
  "MakeHashDict NumberHasher 0 = Returns fresh_table
   \<and> hasher fresh_table (- 16) = - 16
   \<and> index fresh_table (hasher fresh_table (- 16)) = Returns 0
   \<and> TryGet fresh_table (- 16) = Returns None
   \<and> Contains fresh_table (- 16) = Returns False
   \<and> Remove fresh_table (- 16) = Returns (None, fresh_table)
   \<and> then_do (Put fresh_table (- 16) 5) (\<lambda>(r, a).
        then_do (TryGet a (- 16)) (\<lambda>g. Returns (r, g))) = Returns (None, Some 5)
   \<and> then_do (GetAndPut fresh_table (- 16) (\<lambda>old. 5)) (\<lambda>(r, a).
        then_do (TryGet a (- 16)) (\<lambda>g. Returns (r, g))) = Returns ((5, None), Some 5)"
proof -
  have h: "hasher fresh_table (- 16) = - 16"
    by (simp add: fresh_table_def NumberHasher_def)
  have i: "index fresh_table (- 16) = Returns 0"
    by (simp add: index_def fresh_table_def rem_go_def)
  have c: "chain_find fresh_table (- 16) (- 16) 0 = Returns None"
    by (simp add: chain_find_def load_def then_do_def fresh_table_def chain_loop.simps)
  have t: "TryGet fresh_table (- 16) = Returns None"
    by (simp add: TryGet_def h i c then_do_def)
  have n: "Contains fresh_table (- 16) = Returns False"
    by (simp add: Contains_def t then_do_def)
  have r: "Remove fresh_table (- 16) = Returns (None, fresh_table)"
    by (simp add: Remove_def h i c then_do_def)
  have p: "then_do (Put fresh_table (- 16) 5) (\<lambda>(r, a).
        then_do (TryGet a (- 16)) (\<lambda>g. Returns (r, g))) = Returns (None, Some 5)"
    by code_simp
  have g: "then_do (GetAndPut fresh_table (- 16) (\<lambda>old. 5)) (\<lambda>(r, a).
        then_do (TryGet a (- 16)) (\<lambda>g. Returns (r, g))) = Returns ((5, None), Some 5)"
    by code_simp
  from fresh_table_made h i t n r p g show ?thesis by simp
qed

text \<open>
  A negative hash that the bucket count divides is not safe in general either. After
  \<^verbatim>\<open>Put(-16, 5)\<close> and \<^verbatim>\<open>Put(i, i)\<close> for \<open>i = 1, ..., 29\<close> the table has 16 buckets and 30
  slots. The key \<open>-32\<close> has bucket index \<open>0\<close>, and \<^verbatim>\<open>TryGet(-32)\<close> returns, but
  \<^verbatim>\<open>Put(-32, 7)\<close> and \<^verbatim>\<open>GetAndPut(-32, ...)\<close> double the buckets, and the rehash of slot
  \<open>0\<close> computes the index \<open>-16 % 32 = -16\<close> and panics.
\<close>

lemma negative_multiple_panics_in_rehash:
  "then_do (PutAll fresh_table ((- 16, 5) # map (\<lambda>i. (i, i)) [1..29])) (\<lambda>a.
     Returns (length (buckets a), appendCount a, index a (hasher a (- 32)),
              TryGet a (- 32),
              (case Put a (- 32) 7 of
                 Returns x \<Rightarrow> None | Panics e \<Rightarrow> Some e | Diverges \<Rightarrow> None),
              (case GetAndPut a (- 32) (\<lambda>old. 7) of
                 Returns x \<Rightarrow> None | Panics e \<Rightarrow> Some e | Diverges \<Rightarrow> None)))
   = Returns (16, 30, Returns 0, Returns None,
              Some IndexOutOfRange, Some IndexOutOfRange)"
  by code_simp

end
